theory Spec2Isabelle
  imports Main "HOL-Library.Sublist" "HOL-Library.Multiset"
begin

section \<open>Strings\<close>

text \<open>
  A Python \<^verbatim>\<open>str\<close> is a sequence of Unicode code points, and two of the separators
  of the program are not ASCII (the en dash U+2013 and the em dash U+2014). A string is
  therefore modelled as the list of its code points; \<open>ascii\<close> embeds an ASCII literal.
\<close>

type_synonym ustr = "nat list"

definition ascii :: "string \<Rightarrow> ustr" where
  "ascii s = map of_char s"

text \<open>
  \<^verbatim>\<open>str.strip()\<close> without argument removes leading and trailing white space, that is
  the code points for which \<^verbatim>\<open>str.isspace\<close> holds.
\<close>

definition is_space :: "nat \<Rightarrow> bool" where
  "is_space c =
     ((9 \<le> c \<and> c \<le> 13) \<or> (28 \<le> c \<and> c \<le> 32) \<or> c = 133 \<or> c = 160 \<or> c = 5760 \<or>
      (8192 \<le> c \<and> c \<le> 8202) \<or> c = 8232 \<or> c = 8233 \<or> c = 8239 \<or> c = 8287 \<or>
      c = 12288)"

definition strip :: "ustr \<Rightarrow> ustr" where
  "strip s = rev (dropWhile is_space (rev (dropWhile is_space s)))"

text \<open>
  \<^verbatim>\<open>str.splitlines()\<close> cuts at every line boundary (LF, VT, FF, CR, FS, GS, RS, NEL,
  LS, PS; CR LF counts as one boundary), drops the boundaries, and yields no empty last
  line when the text ends with a boundary. \<open>cur\<close> is the line read so far.
\<close>

definition is_linebreak :: "nat \<Rightarrow> bool" where
  "is_linebreak c =
     ((10 \<le> c \<and> c \<le> 13) \<or> (28 \<le> c \<and> c \<le> 30) \<or> c = 133 \<or> c = 8232 \<or> c = 8233)"

fun splitlines_from :: "ustr \<Rightarrow> ustr \<Rightarrow> ustr list" where
  "splitlines_from cur [] = (if cur = [] then [] else [cur])"
| "splitlines_from cur [c] = (if is_linebreak c then [cur] else [cur @ [c]])"
| "splitlines_from cur (c # d # cs) =
     (if is_linebreak c then
        (if c = 13 \<and> d = 10 then cur # splitlines_from [] cs
         else cur # splitlines_from [] (d # cs))
      else splitlines_from (cur @ [c]) (d # cs))"

definition splitlines :: "ustr \<Rightarrow> ustr list" where
  "splitlines text = splitlines_from [] text"

text \<open>
  \<^verbatim>\<open>str.find\<close>: the index of the leftmost occurrence of \<open>sep\<close>. Both \<^verbatim>\<open>sep in line\<close>
  and \<^verbatim>\<open>line.split(sep, 1)\<close> search for it.
\<close>

fun find_sub :: "ustr \<Rightarrow> ustr \<Rightarrow> nat option" where
  "find_sub sep [] = (if sep = [] then Some 0 else None)"
| "find_sub sep (c # cs) =
     (if prefix sep (c # cs) then Some 0 else map_option Suc (find_sub sep cs))"

definition contains :: "ustr \<Rightarrow> ustr \<Rightarrow> bool" where
  "contains sep line = (find_sub sep line \<noteq> None)"

text \<open>
  \<^verbatim>\<open>line.split(sep, 1)\<close>: at most one cut, at the leftmost occurrence. (Python raises
  ValueError for an empty separator; the separators of the program are not empty.)
\<close>

definition split1 :: "ustr \<Rightarrow> ustr \<Rightarrow> ustr list" where
  "split1 sep line =
     (case find_sub sep line of
        None \<Rightarrow> [line]
      | Some i \<Rightarrow> [take i line, drop (i + length sep) line])"

section \<open>The line parser\<close>

text \<open>
  \<^verbatim>\<open>SUPPORTED_SEPARATORS\<close>: a hyphen between spaces, an en dash (U+2013) between
  spaces, an em dash (U+2014) between spaces, a colon, an equals sign.
\<close>

definition SUPPORTED_SEPARATORS :: "ustr list" where
  "SUPPORTED_SEPARATORS = [[32, 45, 32], [32, 8211, 32], [32, 8212, 32], [58], [61]]"

type_synonym pair = "ustr \<times> ustr"

text \<open>
  The inner loop of \<^verbatim>\<open>parse_vocabulary\<close>, over the separators still to try; the
  \<^verbatim>\<open>break\<close> is the branch without a recursive call. The result is \<^verbatim>\<open>vocab_pairs\<close>
  after the loop.
\<close>

fun try_separators :: "ustr list \<Rightarrow> ustr \<Rightarrow> pair list \<Rightarrow> pair list" where
  "try_separators [] line vocab_pairs = vocab_pairs"
| "try_separators (sep # seps) line vocab_pairs =
     (if contains sep line then
        (case split1 sep line of
           [word, translation] \<Rightarrow>
             (let word = strip word; translation = strip translation
              in if word \<noteq> [] \<and> translation \<noteq> []
                 then vocab_pairs @ [(word, translation)]
                 else vocab_pairs)
         | _ \<Rightarrow> vocab_pairs)
      else try_separators seps line vocab_pairs)"

text \<open>The body of the outer loop: one line of the text.\<close>

definition parse_line :: "ustr \<Rightarrow> pair list \<Rightarrow> pair list" where
  "parse_line line vocab_pairs =
     (let line = strip line
      in if line = [] then vocab_pairs
         else try_separators SUPPORTED_SEPARATORS line vocab_pairs)"

fun parse_lines :: "ustr list \<Rightarrow> pair list \<Rightarrow> pair list" where
  "parse_lines [] vocab_pairs = vocab_pairs"
| "parse_lines (line # rest) vocab_pairs = parse_lines rest (parse_line line vocab_pairs)"

definition parse_vocabulary :: "ustr \<Rightarrow> pair list" where
  "parse_vocabulary text = parse_lines (splitlines text) []"

section \<open>The vocabulary table\<close>

text \<open>
  The store is a pandas DataFrame with the two columns \<^verbatim>\<open>word\<close> and \<^verbatim>\<open>translation\<close>.
  A cell is a string, or the missing value NaN that \<^verbatim>\<open>read_csv\<close> produces; a row is the
  pair of its two cells and a frame the list of its rows, in index order. The index itself
  is not modelled: the program renumbers it (\<^verbatim>\<open>reset_index(drop=True)\<close>) and never reads it.
\<close>

datatype cell = Str ustr | NaN

type_synonym row = "cell \<times> cell"

type_synonym dataframe = "row list"

text \<open>\<^verbatim>\<open>pd.DataFrame(all_vocab, columns=["word", "translation"])\<close>\<close>

definition DataFrame :: "pair list \<Rightarrow> dataframe" where
  "DataFrame pairs = map (\<lambda>(word, translation). (Str word, Str translation)) pairs"

text \<open>\<^verbatim>\<open>pd.DataFrame(columns=["word", "translation"])\<close>\<close>

definition empty_frame :: dataframe where
  "empty_frame = []"

text \<open>\<^verbatim>\<open>pd.concat([a, b])\<close> of two frames with the same columns: the rows of both, in order.\<close>

definition pd_concat :: "dataframe \<Rightarrow> dataframe \<Rightarrow> dataframe" where
  "pd_concat a b = a @ b"

text \<open>
  \<^verbatim>\<open>DataFrame.duplicated()\<close> (\<^verbatim>\<open>keep='first'\<close>) marks a row that equals an earlier row;
  \<^verbatim>\<open>drop_duplicates()\<close> keeps the rows that are not marked. \<open>seen\<close> holds the rows
  passed so far. Two missing cells count as equal there, as they do in HOL.
\<close>

fun duplicated_from :: "row list \<Rightarrow> dataframe \<Rightarrow> bool list" where
  "duplicated_from seen [] = []"
| "duplicated_from seen (r # rs) = (r \<in> set seen) # duplicated_from (r # seen) rs"

definition unmarked :: "dataframe \<Rightarrow> bool list \<Rightarrow> dataframe" where
  "unmarked df marks = map fst (filter (\<lambda>(r, dup). \<not> dup) (zip df marks))"

definition drop_duplicates :: "dataframe \<Rightarrow> dataframe" where
  "drop_duplicates df = unmarked df (duplicated_from [] df)"

text \<open>\<^verbatim>\<open>DataFrame.empty\<close>: the frame has two columns, so it is empty when it has no row.\<close>

definition df_empty :: "dataframe \<Rightarrow> bool" where
  "df_empty df = (df = [])"

text \<open>
  \<^verbatim>\<open>df.sample(frac=1)\<close> returns all rows of the frame in an order drawn by the random
  number generator. The draw is an argument of the model: \<open>order\<close> lists the positions of
  the rows in the order drawn, a permutation of \<open>[0..<length df]\<close>.
\<close>

definition sample :: "nat list \<Rightarrow> dataframe \<Rightarrow> dataframe" where
  "sample order df = map (\<lambda>i. df ! i) order"

text \<open>
  \<^verbatim>\<open>to_dict("records")\<close>: one dictionary with the keys \<^verbatim>\<open>word\<close> and \<^verbatim>\<open>translation\<close> per
  row, which is the row itself in this model.
\<close>

definition to_dict_records :: "dataframe \<Rightarrow> row list" where
  "to_dict_records df = df"

section \<open>Session state\<close>

text \<open>
  The four keys that \<^verbatim>\<open>init_session_state\<close> sets in \<^verbatim>\<open>st.session_state\<close>.
  \<^verbatim>\<open>current_index\<close> is a Python integer.
\<close>

record session_state =
  vocab_df :: dataframe
  flashcards :: "row list"
  current_index :: int
  show_translation :: bool

text \<open>
  What a block shows to the user with \<^verbatim>\<open>st.success\<close>, \<^verbatim>\<open>st.warning\<close> and \<^verbatim>\<open>st.info\<close>;
  \<open>Recognised n\<close> is the success message of the upload, which prints \<open>n\<close>.
\<close>

datatype notice =
    Recognised nat
  | NoValidVocabulary
  | Saved
  | Cleared
  | NothingLoaded
  | LoadVocabularyFirst

datatype button = SaveButton | ClearButton | StartButton | ToggleButton | NextButton

text \<open>The exceptions that the program can raise.\<close>

datatype py_error = IndexError | EmptyDataError | ParserError

section \<open>Merge on upload\<close>

text \<open>
  The branch \<^verbatim>\<open>if all_vocab: ... else: ...\<close> of the upload section: the pairs parsed from
  the uploaded files are appended to the store, duplicates are dropped, and the success
  message prints \<^verbatim>\<open>len(new_df)\<close>.
\<close>

definition merge_upload :: "pair list \<Rightarrow> session_state \<Rightarrow> session_state \<times> notice list" where
  "merge_upload all_vocab s =
     (if all_vocab \<noteq> [] then
        (let new_df = DataFrame all_vocab
         in (s\<lparr>vocab_df := drop_duplicates (pd_concat (vocab_df s) new_df)\<rparr>,
             [Recognised (length new_df)]))
      else (s, [NoValidVocabulary]))"

text \<open>
  The upload section. \<open>texts\<close> holds, for every uploaded file, the text that
  \<^verbatim>\<open>extract_text_from_pdf\<close> returned for it (the PDF library is outside the model).
\<close>

fun extend_all :: "ustr list \<Rightarrow> pair list \<Rightarrow> pair list" where
  "extend_all [] all_vocab = all_vocab"
| "extend_all (text # texts) all_vocab = extend_all texts (all_vocab @ parse_vocabulary text)"

definition upload_section :: "ustr list \<Rightarrow> session_state \<Rightarrow> session_state \<times> notice list" where
  "upload_section texts s =
     (if texts \<noteq> [] then merge_upload (extend_all texts []) s else (s, []))"

section \<open>Flashcards\<close>

text \<open>
  The start button: a warning when the store is empty, otherwise a new shuffled deck, the
  position 0 and the translation hidden.
\<close>

definition start_learning :: "nat list \<Rightarrow> session_state \<Rightarrow> session_state \<times> notice list" where
  "start_learning order s =
     (if df_empty (vocab_df s) then (s, [LoadVocabularyFirst])
      else (s\<lparr>flashcards := to_dict_records (sample order (vocab_df s)),
               current_index := 0,
               show_translation := False\<rparr>, []))"

text \<open>\<^verbatim>\<open>flashcards[current_index]\<close>: a negative index counts from the end.\<close>

definition py_index :: "'a list \<Rightarrow> int \<Rightarrow> py_error + 'a" where
  "py_index xs i =
     (let n = int (length xs); j = (if i < 0 then i + n else i)
      in if 0 \<le> j \<and> j < n then Inr (xs ! nat j) else Inl IndexError)"

definition toggle_translation :: "session_state \<Rightarrow> session_state" where
  "toggle_translation s = s\<lparr>show_translation := \<not> show_translation s\<rparr>"

text \<open>
  The button for the next card. It is inside \<^verbatim>\<open>if st.session_state.flashcards:\<close>, so the
  deck is not empty when it runs and the modulus is not zero.
\<close>

definition next_card :: "session_state \<Rightarrow> session_state" where
  "next_card s =
     s\<lparr>current_index := (current_index s + 1) mod int (length (flashcards s)),
       show_translation := False\<rparr>"

text \<open>
  The flashcard section: nothing when the deck is empty; otherwise the current card is
  read (which raises IndexError for a position outside the deck), and then the button
  that was pressed, if it is one of the two of this section, takes effect.
\<close>

definition flashcard_section :: "button option \<Rightarrow> session_state \<Rightarrow> py_error + session_state" where
  "flashcard_section pressed s =
     (if flashcards s \<noteq> [] then
        (case py_index (flashcards s) (current_index s) of
           Inl e \<Rightarrow> Inl e
         | Inr shown_card \<Rightarrow>
             (let s1 = (if pressed = Some ToggleButton then toggle_translation s else s);
                  s2 = (if pressed = Some NextButton then next_card s1 else s1)
              in Inr s2))
      else Inr s)"

section \<open>The vocabulary file\<close>

text \<open>
  \<^verbatim>\<open>vocabularies.csv\<close> is modelled by its text, \<open>None\<close> when the file does not exist.
  The two pandas calls of the program are modelled on tables of text: a header line
  \<^verbatim>\<open>word,translation\<close> and one line per row, every cell a string or missing.

  \<^verbatim>\<open>df.to_csv(VOCAB_STORAGE_FILE, index=False)\<close> writes the header and the rows, the
  fields of a line separated by commas and each line ended by a line feed. A missing
  cell is written as the empty field. A field that holds a comma, a double quote or a
  line break is put between double quotes, with every double quote in it doubled.
\<close>

definition needs_quotes :: "ustr \<Rightarrow> bool" where
  "needs_quotes s = list_ex (\<lambda>c. c = 44 \<or> c = 34 \<or> c = 10 \<or> c = 13) s"

definition quoted :: "ustr \<Rightarrow> ustr" where
  "quoted s = [34] @ concat (map (\<lambda>c. if c = 34 then [34, 34] else [c]) s) @ [34]"

definition csv_field :: "ustr \<Rightarrow> ustr" where
  "csv_field s = (if needs_quotes s then quoted s else s)"

definition csv_cell :: "cell \<Rightarrow> ustr" where
  "csv_cell c = (case c of NaN \<Rightarrow> [] | Str s \<Rightarrow> csv_field s)"

definition csv_line :: "ustr \<Rightarrow> ustr \<Rightarrow> ustr" where
  "csv_line a b = a @ [44] @ b @ [10]"

definition to_csv :: "dataframe \<Rightarrow> ustr" where
  "to_csv df =
     csv_line (csv_field (ascii ''word'')) (csv_field (ascii ''translation'')) @
     concat (map (\<lambda>(word, translation). csv_line (csv_cell word) (csv_cell translation)) df)"

text \<open>
  \<^verbatim>\<open>pd.read_csv(VOCAB_STORAGE_FILE)\<close> first cuts the text into lines of fields. The
  tokenizer of pandas is a state machine over the characters; these are its states for
  the default dialect (comma, double quote with doubling, LF, CR or CR LF as line end,
  blank lines skipped). \<open>tk_field\<close> collects the field being read (in
  \<open>WHITESPACE_LINE\<close>, the blanks passed so far), \<open>tk_fields\<close> the fields of the line
  being read and \<open>tk_lines\<close> the lines read.
\<close>

datatype tok_state =
    START_RECORD
  | START_FIELD
  | IN_FIELD
  | IN_QUOTED_FIELD
  | QUOTE_IN_QUOTED_FIELD
  | EAT_CRNL
  | EAT_CRNL_NOP
  | WHITESPACE_LINE

record tokenizer =
  tk_state :: tok_state
  tk_field :: ustr
  tk_fields :: "ustr list"
  tk_lines :: "ustr list list"

definition push_char :: "nat \<Rightarrow> tokenizer \<Rightarrow> tokenizer" where
  "push_char c t = t\<lparr>tk_field := tk_field t @ [c]\<rparr>"

definition end_field :: "tokenizer \<Rightarrow> tokenizer" where
  "end_field t = t\<lparr>tk_fields := tk_fields t @ [tk_field t], tk_field := []\<rparr>"

definition end_line :: "tokenizer \<Rightarrow> tokenizer" where
  "end_line t = t\<lparr>tk_lines := tk_lines t @ [tk_fields t], tk_fields := [], tk_state := START_RECORD\<rparr>"

definition start_field_step :: "nat \<Rightarrow> tokenizer \<Rightarrow> tokenizer" where
  "start_field_step c t =
     (if c = 10 then end_line (end_field t)
      else if c = 13 then (end_field t)\<lparr>tk_state := EAT_CRNL\<rparr>
      else if c = 34 then t\<lparr>tk_state := IN_QUOTED_FIELD\<rparr>
      else if c = 44 then (end_field t)\<lparr>tk_state := START_FIELD\<rparr>
      else (push_char c t)\<lparr>tk_state := IN_FIELD\<rparr>)"

definition in_field_step :: "nat \<Rightarrow> tokenizer \<Rightarrow> tokenizer" where
  "in_field_step c t =
     (if c = 10 then end_line (end_field t)
      else if c = 13 then (end_field t)\<lparr>tk_state := EAT_CRNL\<rparr>
      else if c = 44 then (end_field t)\<lparr>tk_state := START_FIELD\<rparr>
      else (push_char c t)\<lparr>tk_state := IN_FIELD\<rparr>)"

definition start_record_step :: "nat \<Rightarrow> tokenizer \<Rightarrow> tokenizer" where
  "start_record_step c t =
     (if c = 10 then t\<lparr>tk_state := START_RECORD\<rparr>
      else if c = 13 then t\<lparr>tk_state := EAT_CRNL_NOP\<rparr>
      else if c = 32 \<or> c = 9 then (push_char c t)\<lparr>tk_state := WHITESPACE_LINE\<rparr>
      else start_field_step c t)"

definition tokenizer_step :: "nat \<Rightarrow> tokenizer \<Rightarrow> tokenizer" where
  "tokenizer_step c t =
     (case tk_state t of
        START_RECORD \<Rightarrow> start_record_step c t
      | START_FIELD \<Rightarrow> start_field_step c t
      | IN_FIELD \<Rightarrow> in_field_step c t
      | IN_QUOTED_FIELD \<Rightarrow>
          (if c = 34 then t\<lparr>tk_state := QUOTE_IN_QUOTED_FIELD\<rparr> else push_char c t)
      | QUOTE_IN_QUOTED_FIELD \<Rightarrow>
          (if c = 34 then (push_char c t)\<lparr>tk_state := IN_QUOTED_FIELD\<rparr>
           else in_field_step c t)
      | EAT_CRNL \<Rightarrow>
          (if c = 10 then end_line t else start_record_step c (end_line t))
      | EAT_CRNL_NOP \<Rightarrow>
          (if c = 10 then t\<lparr>tk_state := START_RECORD\<rparr> else start_record_step c t)
      | WHITESPACE_LINE \<Rightarrow>
          (if c = 10 then t\<lparr>tk_field := [], tk_state := START_RECORD\<rparr>
           else if c = 13 then t\<lparr>tk_field := [], tk_state := EAT_CRNL_NOP\<rparr>
           else if c = 32 \<or> c = 9 then push_char c t
           else in_field_step c t))"

text \<open>At the end of the text: an open quoted field is an error, an open line is closed.\<close>

definition handle_eof :: "tokenizer \<Rightarrow> py_error + ustr list list" where
  "handle_eof t =
     (case tk_state t of
        START_RECORD \<Rightarrow> Inr (tk_lines t)
      | WHITESPACE_LINE \<Rightarrow> Inr (tk_lines t)
      | EAT_CRNL_NOP \<Rightarrow> Inr (tk_lines t)
      | IN_QUOTED_FIELD \<Rightarrow> Inl ParserError
      | EAT_CRNL \<Rightarrow> Inr (tk_lines (end_line t))
      | _ \<Rightarrow> Inr (tk_lines (end_line (end_field t))))"

definition tokenize :: "ustr \<Rightarrow> py_error + ustr list list" where
  "tokenize text =
     handle_eof (fold tokenizer_step text
       \<lparr>tk_state = START_RECORD, tk_field = [], tk_fields = [], tk_lines = []\<rparr>)"

text \<open>
  A byte order mark at the start of the file is skipped.
\<close>

definition skip_bom :: "ustr \<Rightarrow> ustr" where
  "skip_bom text = (case text of [] \<Rightarrow> [] | c # cs \<Rightarrow> if c = 65279 then cs else text)"

text \<open>
  The width of the table is the number of fields of the header or of the first line
  after it, whichever is larger. A line with more fields than that raises ParserError
  (the first line after the header cannot, by the definition of the width); a line with
  fewer is filled with empty fields. When the table is wider than the header, its first
  columns are the index of the frame, which the program drops or ignores everywhere, and
  the columns named by the header are the last ones: \<open>column_field width k\<close> is the
  field of a line in the \<open>k\<close>-th of the two named columns.
\<close>

definition table_width :: "ustr list \<Rightarrow> ustr list list \<Rightarrow> nat" where
  "table_width header records =
     (case records of
        [] \<Rightarrow> length header
      | first_line # _ \<Rightarrow> max (length header) (length first_line))"

definition too_many_fields :: "nat \<Rightarrow> ustr list list \<Rightarrow> bool" where
  "too_many_fields width records = list_ex (\<lambda>fs. width < length fs) records"

definition column_field :: "nat \<Rightarrow> nat \<Rightarrow> ustr list \<Rightarrow> ustr" where
  "column_field width k fs = (fs @ replicate (width - length fs) []) ! (width - 2 + k)"

text \<open>
  The fields that \<^verbatim>\<open>read_csv\<close> reads as a missing value (\<^verbatim>\<open>keep_default_na=True\<close>); every
  other field of a column of text is kept as the string it is.
\<close>

definition na_values :: "ustr list" where
  "na_values = map ascii
     ['''', ''#N/A'', ''#N/A N/A'', ''#NA'', ''-1.#IND'', ''-1.#QNAN'', ''-NaN'', ''-nan'',
      ''1.#IND'', ''1.#QNAN'', ''<NA>'', ''N/A'', ''NA'', ''NULL'', ''NaN'', ''None'', ''n/a'',
      ''nan'', ''null'']"

definition to_cell :: "ustr \<Rightarrow> cell" where
  "to_cell token = (if token \<in> set na_values then NaN else Str token)"

text \<open>
  pandas infers the type of every column: a column whose fields, the missing ones apart,
  all read as numbers, or all as truth values, becomes a column of numbers or of truth
  values and not of strings. This model has no cell for such a value. \<open>may_be_typed\<close>
  holds for every field that pandas can read as a number or a truth value (and for some
  that it cannot): between optional blanks, \<^verbatim>\<open>true\<close> or \<^verbatim>\<open>false\<close>, or \<^verbatim>\<open>inf\<close>,
  \<^verbatim>\<open>infinity\<close> or \<^verbatim>\<open>nan\<close> after an optional sign, in any case of the letters, or
  digits with only signs, points and exponent letters around them. A column that has
  such fields only is outside the model.
\<close>

definition is_ascii_space :: "nat \<Rightarrow> bool" where
  "is_ascii_space c = (c = 32 \<or> (9 \<le> c \<and> c \<le> 13))"

definition trim_ascii :: "ustr \<Rightarrow> ustr" where
  "trim_ascii s = rev (dropWhile is_ascii_space (rev (dropWhile is_ascii_space s)))"

definition ascii_lower :: "nat \<Rightarrow> nat" where
  "ascii_lower c = (if 65 \<le> c \<and> c \<le> 90 then c + 32 else c)"

definition drop_sign :: "ustr \<Rightarrow> ustr" where
  "drop_sign s = (case s of [] \<Rightarrow> [] | c # cs \<Rightarrow> if c = 43 \<or> c = 45 then cs else s)"

definition is_digit :: "nat \<Rightarrow> bool" where
  "is_digit c = (48 \<le> c \<and> c \<le> 57)"

definition may_be_typed :: "ustr \<Rightarrow> bool" where
  "may_be_typed token =
     (let t = trim_ascii token
      in map ascii_lower t \<in> set (map ascii [''true'', ''false'']) \<or>
         map ascii_lower (drop_sign t) \<in> set (map ascii [''inf'', ''infinity'', ''nan'']) \<or>
         (list_ex is_digit t \<and>
          list_all (\<lambda>c. is_digit c \<or> c = 43 \<or> c = 45 \<or> c = 46 \<or> c = 101 \<or> c = 69) t))"

definition typed_column :: "ustr list \<Rightarrow> bool" where
  "typed_column tokens =
     (let present = filter (\<lambda>t. t \<notin> set na_values) tokens
      in present \<noteq> [] \<and> list_all may_be_typed present)"

text \<open>
  How a call of \<^verbatim>\<open>read_csv\<close> ends when it returns no table of text: with an exception,
  or with a frame that this model has no value for (\<open>OtherFrame\<close>: the header is not
  \<^verbatim>\<open>word,translation\<close>, or a column holds numbers or truth values). \<open>OtherFrame\<close> is
  not an exception: pandas returns the frame and the script goes on with it. The model
  says nothing about such a run.
\<close>

datatype stop = Raised py_error | OtherFrame

text \<open>A file without any line raises EmptyDataError.\<close>

definition read_csv :: "ustr \<Rightarrow> stop + dataframe" where
  "read_csv text =
     (case tokenize (skip_bom text) of
        Inl e \<Rightarrow> Inl (Raised e)
      | Inr [] \<Rightarrow> Inl (Raised EmptyDataError)
      | Inr (header # records) \<Rightarrow>
          (let width = table_width header records
           in if too_many_fields width records then Inl (Raised ParserError)
              else if header \<noteq> [ascii ''word'', ascii ''translation''] then Inl OtherFrame
              else
                (let words = map (column_field width 0) records;
                     translations = map (column_field width 1) records
                 in if typed_column words \<or> typed_column translations then Inl OtherFrame
                    else Inr (zip (map to_cell words) (map to_cell translations)))))"

text \<open>\<^verbatim>\<open>load_saved_vocabularies\<close> and \<^verbatim>\<open>save_vocabularies\<close>, on the file.\<close>

definition load_saved_vocabularies :: "ustr option \<Rightarrow> stop + dataframe" where
  "load_saved_vocabularies file =
     (case file of
        Some text \<Rightarrow> read_csv text
      | None \<Rightarrow> Inr empty_frame)"

definition save_vocabularies :: "dataframe \<Rightarrow> ustr option \<Rightarrow> ustr option" where
  "save_vocabularies df file = Some (to_csv df)"

section \<open>The script\<close>

text \<open>
  Streamlit runs the whole script once per user action. The world of a run is the file
  and \<^verbatim>\<open>st.session_state\<close>, which has none of the four keys before the first run of a
  browser session (\<open>None\<close>) and all of them afterwards. The inputs of a run are the texts
  of the uploaded files, the button that was pressed (if any) and the order that the
  random number generator draws.
\<close>

record world =
  disk :: "ustr option"
  session :: "session_state option"

record inputs =
  uploaded :: "ustr list"
  pressed :: "button option"
  drawn :: "nat list"

definition init_session_state :: "world \<Rightarrow> stop + session_state" where
  "init_session_state w =
     (case session w of
        Some s \<Rightarrow> Inr s
      | None \<Rightarrow>
          (case load_saved_vocabularies (disk w) of
             Inl e \<Rightarrow> Inl e
           | Inr df \<Rightarrow>
               Inr \<lparr>vocab_df = df, flashcards = [], current_index = 0,
                    show_translation = False\<rparr>))"

text \<open>The button that empties the store.\<close>

definition clear_vocabularies :: "session_state \<Rightarrow> session_state" where
  "clear_vocabularies s = s\<lparr>vocab_df := empty_frame, flashcards := []\<rparr>"

text \<open>
  The overview section: the two buttons exist only while the store is not empty.
\<close>

definition overview_section ::
  "button option \<Rightarrow> ustr option \<times> session_state \<Rightarrow> (ustr option \<times> session_state) \<times> notice list" where
  "overview_section btn ds =
     (case ds of (file, s) \<Rightarrow>
        if \<not> df_empty (vocab_df s) then
          (let (file1, n1) = (if btn = Some SaveButton
                              then (save_vocabularies (vocab_df s) file, [Saved])
                              else (file, []));
               (s2, n2) = (if btn = Some ClearButton
                           then (clear_vocabularies s, [Cleared])
                           else (s, []))
           in ((file1, s2), n1 @ n2))
        else ((file, s), [NothingLoaded]))"

definition start_section :: "button option \<Rightarrow> nat list \<Rightarrow> session_state \<Rightarrow> session_state \<times> notice list" where
  "start_section btn order s =
     (if btn = Some StartButton then start_learning order s else (s, []))"

text \<open>
  One run of the script. An exception ends the run; what the run has written to the
  session state and to the file before stays. The last component tells how the run
  stopped early, if it did; with \<open>OtherFrame\<close> there, the file holds a table outside the
  model and the result describes no run of the program.
\<close>

definition run_script :: "inputs \<Rightarrow> world \<Rightarrow> world \<times> notice list \<times> stop option" where
  "run_script i w =
     (case init_session_state w of
        Inl e \<Rightarrow> (w, [], Some e)
      | Inr s0 \<Rightarrow>
          (let (s1, n1) = upload_section (uploaded i) s0;
               ((file2, s2), n2) = overview_section (pressed i) (disk w, s1);
               (s3, n3) = start_section (pressed i) (drawn i) s2
           in (case flashcard_section (pressed i) s3 of
                 Inl e \<Rightarrow>
                   (\<lparr>disk = file2, session = Some s3\<rparr>, n1 @ n2 @ n3, Some (Raised e))
               | Inr s4 \<Rightarrow> (\<lparr>disk = file2, session = Some s4\<rparr>, n1 @ n2 @ n3, None))))"

text \<open>
  The invariant of the session: while there is a deck, the position is one of its cards.
\<close>

definition deck_position_ok :: "session_state \<Rightarrow> bool" where
  "deck_position_ok s =
     (flashcards s = [] \<or>
      (0 \<le> current_index s \<and> current_index s < int (length (flashcards s))))"

section \<open>Properties of the parser\<close>

lemma find_sub_None_iff: "find_sub sep s = None \<longleftrightarrow> \<not> sublist sep s"
proof (induction s)
  case Nil
  then show ?case by simp
next
  case (Cons c cs)
  then show ?case by (auto simp: sublist_Cons_right)
qed

lemma contains_iff_sublist: "contains sep s \<longleftrightarrow> sublist sep s"
  by (simp add: contains_def find_sub_None_iff)

lemma find_sub_Some_split:
  "find_sub sep s = Some i \<Longrightarrow> s = take i s @ sep @ drop (i + length sep) s"
proof (induction s arbitrary: i)
  case Nil
  then show ?case by (simp split: if_splits)
next
  case (Cons c cs)
  show ?case
  proof (cases "prefix sep (c # cs)")
    case True
    with Cons.prems have "i = 0" by simp
    with True show ?thesis by (auto simp: prefix_def)
  next
    case False
    with Cons.prems obtain j where j: "find_sub sep cs = Some j" "i = Suc j" by auto
    from Cons.IH [OF j(1)] j(2) show ?thesis by simp
  qed
qed

lemma find_sub_Some_leftmost:
  "find_sub sep s = Some i \<Longrightarrow> s = a @ sep @ b \<Longrightarrow> i \<le> length a"
proof (induction s arbitrary: i a)
  case Nil
  then show ?case by (simp split: if_splits)
next
  case (Cons c cs)
  show ?case
  proof (cases "prefix sep (c # cs)")
    case True
    with Cons.prems(1) have "i = 0" by simp
    then show ?thesis by simp
  next
    case False
    with Cons.prems(1) obtain j where j: "find_sub sep cs = Some j" "i = Suc j" by auto
    from False Cons.prems(2) have "a \<noteq> []" by (auto simp: prefix_def)
    then obtain a' where a': "a = c # a'" using Cons.prems(2) by (cases a) auto
    with Cons.prems(2) have "cs = a' @ sep @ b" by simp
    from Cons.IH [OF j(1) this] j(2) a' show ?thesis by simp
  qed
qed

lemma find_sub_Some_le: "find_sub sep s = Some i \<Longrightarrow> i + length sep \<le> length s"
proof (induction s arbitrary: i)
  case Nil
  then show ?case by (simp split: if_splits)
next
  case (Cons c cs)
  show ?case
  proof (cases "prefix sep (c # cs)")
    case True
    with Cons.prems have "i = 0" by simp
    with prefix_length_le [OF True] show ?thesis by simp
  next
    case False
    with Cons.prems obtain j where j: "find_sub sep cs = Some j" "i = Suc j" by auto
    from Cons.IH [OF j(1)] j(2) show ?thesis by simp
  qed
qed

lemma try_separators_none:
  "\<forall>s \<in> set seps. \<not> sublist s line \<Longrightarrow> try_separators seps line acc = acc"
  by (induction seps) (simp_all add: contains_iff_sublist)

lemma try_separators_first:
  assumes "filter (\<lambda>s. sublist s line) seps = sep # others"
  shows "\<exists>i. find_sub sep line = Some i \<and>
           try_separators seps line acc =
             (if strip (take i line) \<noteq> [] \<and> strip (drop (i + length sep) line) \<noteq> []
              then acc @ [(strip (take i line), strip (drop (i + length sep) line))]
              else acc)"
  using assms
proof (induction seps)
  case Nil
  then show ?case by simp
next
  case (Cons s seps)
  show ?case
  proof (cases "sublist s line")
    case True
    with Cons.prems have eq: "s = sep" by simp
    from True eq obtain i where i: "find_sub sep line = Some i"
      using find_sub_None_iff [of sep line] by auto
    with True eq show ?thesis
      by (simp add: contains_iff_sublist split1_def Let_def)
  next
    case False
    with Cons.prems have "filter (\<lambda>s. sublist s line) seps = sep # others" by simp
    from Cons.IH [OF this] False show ?thesis
      by (simp add: contains_iff_sublist)
  qed
qed

lemma parse_lines_fold: "parse_lines ls acc = fold parse_line ls acc"
  by (induction ls arbitrary: acc) simp_all

lemma strip_Nil [simp]: "strip [] = []"
  by (simp add: strip_def)

lemma no_separator_in_Nil: "filter (\<lambda>s. sublist s []) SUPPORTED_SEPARATORS = []"
  by (simp add: SUPPORTED_SEPARATORS_def)

text \<open>
  C3. One line of \<^verbatim>\<open>parse_vocabulary\<close>, trimmed: when no separator of the list occurs
  in it, it adds no pair. Otherwise the first separator of the list that occurs in it is
  the only one used: the line is cut at the leftmost occurrence of that separator, both
  parts are trimmed, the pair is added when both are non-empty, and nothing is added
  otherwise (no later separator is tried). The text is parsed line by line.
\<close>

theorem parse_line_first_separator:
  "(filter (\<lambda>s. sublist s (strip line)) SUPPORTED_SEPARATORS = [] \<longrightarrow>
      parse_line line acc = acc) \<and>
   (\<forall>sep others.
      filter (\<lambda>s. sublist s (strip line)) SUPPORTED_SEPARATORS = sep # others \<longrightarrow>
      (\<exists>a b. strip line = a @ sep @ b \<and>
         (\<forall>a' b'. strip line = a' @ sep @ b' \<longrightarrow> length a \<le> length a') \<and>
         parse_line line acc =
           (if strip a \<noteq> [] \<and> strip b \<noteq> [] then acc @ [(strip a, strip b)] else acc))) \<and>
   parse_vocabulary text = fold parse_line (splitlines text) []"
proof (intro conjI allI impI)
  assume "filter (\<lambda>s. sublist s (strip line)) SUPPORTED_SEPARATORS = []"
  then have "\<forall>s \<in> set SUPPORTED_SEPARATORS. \<not> sublist s (strip line)"
    by (simp add: filter_empty_conv)
  then show "parse_line line acc = acc"
    by (simp add: parse_line_def Let_def try_separators_none)
next
  fix sep others
  assume f: "filter (\<lambda>s. sublist s (strip line)) SUPPORTED_SEPARATORS = sep # others"
  then have ne: "strip line \<noteq> []"
    using no_separator_in_Nil by auto
  from try_separators_first [OF f, of acc] obtain i where
    i: "find_sub sep (strip line) = Some i" and
    t: "try_separators SUPPORTED_SEPARATORS (strip line) acc =
          (if strip (take i (strip line)) \<noteq> [] \<and>
              strip (drop (i + length sep) (strip line)) \<noteq> []
           then acc @ [(strip (take i (strip line)),
                        strip (drop (i + length sep) (strip line)))]
           else acc)"
    by blast
  let ?a = "take i (strip line)" and ?b = "drop (i + length sep) (strip line)"
  have cut: "strip line = ?a @ sep @ ?b"
    by (rule find_sub_Some_split [OF i])
  have len: "length ?a = i"
    using find_sub_Some_le [OF i] by simp
  have left: "\<forall>a' b'. strip line = a' @ sep @ b' \<longrightarrow> length ?a \<le> length a'"
    using find_sub_Some_leftmost [OF i] len by simp
  have "parse_line line acc =
          (if strip ?a \<noteq> [] \<and> strip ?b \<noteq> [] then acc @ [(strip ?a, strip ?b)] else acc)"
    using ne t by (simp add: parse_line_def Let_def)
  with cut left show "\<exists>a b. strip line = a @ sep @ b \<and>
         (\<forall>a' b'. strip line = a' @ sep @ b' \<longrightarrow> length a \<le> length a') \<and>
         parse_line line acc =
           (if strip a \<noteq> [] \<and> strip b \<noteq> [] then acc @ [(strip a, strip b)] else acc)"
    by blast
next
  show "parse_vocabulary text = fold parse_line (splitlines text) []"
    by (simp add: parse_vocabulary_def parse_lines_fold)
qed

theorem parse_line_first_separator_witness:
  "filter (\<lambda>s. sublist s (strip (ascii ''a=b=c''))) SUPPORTED_SEPARATORS = [[61]] \<and>
   (\<exists>a b. strip (ascii ''a=b=c'') = a @ [61] @ b \<and>
      (\<forall>a' b'. strip (ascii ''a=b=c'') = a' @ [61] @ b' \<longrightarrow> length a \<le> length a') \<and>
      parse_line (ascii ''a=b=c'') [] =
        (if strip a \<noteq> [] \<and> strip b \<noteq> [] then [] @ [(strip a, strip b)] else [])) \<and>
   parse_line (ascii ''a=b=c'') [] = [(ascii ''a'', ascii ''b=c'')]"
proof -
  have f: "filter (\<lambda>s. sublist s (strip (ascii ''a=b=c''))) SUPPORTED_SEPARATORS = [61] # []"
    by (simp add: contains_iff_sublist [symmetric] contains_def ascii_def strip_def is_space_def
        SUPPORTED_SEPARATORS_def)
  have v: "parse_line (ascii ''a=b=c'') [] = [(ascii ''a'', ascii ''b=c'')]"
    by (simp add: parse_line_def contains_def split1_def ascii_def strip_def is_space_def
        SUPPORTED_SEPARATORS_def)
  from parse_line_first_separator [of "ascii ''a=b=c''" "[]" "[]"] f v show ?thesis
    by blast
qed
section \<open>Properties of dropping duplicates\<close>

lemma unmarked_Cons:
  "unmarked (r # rs) (m # ms) = (if m then unmarked rs ms else r # unmarked rs ms)"
  by (simp add: unmarked_def)

lemma unmarked_Nil [simp]: "unmarked [] ms = []"
  by (simp add: unmarked_def)

lemma duplicated_from_set:
  "set seen = set seen' \<Longrightarrow> duplicated_from seen rs = duplicated_from seen' rs"
  by (induction rs arbitrary: seen seen') simp_all

lemma kept_Cons:
  "unmarked (r # rs) (duplicated_from seen (r # rs)) =
     (if r \<in> set seen then unmarked rs (duplicated_from seen rs)
      else r # unmarked rs (duplicated_from (r # seen) rs))"
proof (cases "r \<in> set seen")
  case True
  then have "set (r # seen) = set seen" by auto
  from duplicated_from_set [OF this] True show ?thesis by (simp add: unmarked_Cons)
next
  case False
  then show ?thesis by (simp add: unmarked_Cons)
qed

lemma set_kept:
  "set (unmarked rs (duplicated_from seen rs)) = set rs - set seen"
proof (induction rs arbitrary: seen)
  case Nil
  then show ?case by simp
next
  case (Cons r rs)
  show ?case unfolding kept_Cons by (auto simp: Cons.IH)
qed

lemma distinct_kept: "distinct (unmarked rs (duplicated_from seen rs))"
proof (induction rs arbitrary: seen)
  case Nil
  then show ?case by simp
next
  case (Cons r rs)
  show ?case unfolding kept_Cons by (simp add: Cons.IH set_kept)
qed

lemma kept_append:
  "unmarked (xs @ ys) (duplicated_from seen (xs @ ys)) =
     unmarked xs (duplicated_from seen xs) @ unmarked ys (duplicated_from (xs @ seen) ys)"
proof (induction xs arbitrary: seen)
  case Nil
  then show ?case by simp
next
  case (Cons x xs)
  have s: "set (xs @ x # seen) = set ((x # xs) @ seen)" by auto
  have s': "x \<in> set seen \<Longrightarrow> set (xs @ seen) = set ((x # xs) @ seen)" by auto
  show ?case
    using duplicated_from_set [OF s, of ys] duplicated_from_set [OF s', of ys]
    by (simp only: append_Cons kept_Cons Cons.IH split: if_splits) auto
qed

lemma kept_subset: "set rs \<subseteq> set seen \<Longrightarrow> unmarked rs (duplicated_from seen rs) = []"
proof (induction rs arbitrary: seen)
  case Nil
  then show ?case by simp
next
  case (Cons r rs)
  then show ?case unfolding kept_Cons by simp
qed

lemma kept_distinct:
  "distinct rs \<Longrightarrow> set rs \<inter> set seen = {} \<Longrightarrow> unmarked rs (duplicated_from seen rs) = rs"
proof (induction rs arbitrary: seen)
  case Nil
  then show ?case by simp
next
  case (Cons r rs)
  then show ?case unfolding kept_Cons by simp
qed

lemma kept_filter:
  "unmarked rs (duplicated_from (seen0 @ seen) rs) =
     unmarked (filter (\<lambda>r. r \<notin> set seen) rs)
       (duplicated_from seen0 (filter (\<lambda>r. r \<notin> set seen) rs))"
proof (induction rs arbitrary: seen0)
  case Nil
  then show ?case by simp
next
  case (Cons r rs)
  from Cons.IH [of seen0] Cons.IH [of "r # seen0"] show ?case
    by (simp only: filter.simps kept_Cons split: if_splits) auto
qed

lemma first_index_shift:
  "y \<noteq> r \<Longrightarrow> length (takeWhile (\<lambda>z. z \<noteq> y) (r # rs)) = Suc (length (takeWhile (\<lambda>z. z \<noteq> y) rs))"
  by simp

lemma sorted_kept:
  "sorted_wrt (\<lambda>x y. length (takeWhile (\<lambda>z. z \<noteq> x) rs) < length (takeWhile (\<lambda>z. z \<noteq> y) rs))
     (unmarked rs (duplicated_from seen rs))"
proof (induction rs arbitrary: seen)
  case Nil
  then show ?case by simp
next
  case (Cons r rs)
  have shift: "sorted_wrt (\<lambda>x y. length (takeWhile (\<lambda>z. z \<noteq> x) (r # rs))
                                < length (takeWhile (\<lambda>z. z \<noteq> y) (r # rs)))
                 (unmarked rs (duplicated_from sn rs))" if "r \<in> set sn" for sn
  proof (rule sorted_wrt_mono_rel [OF _ Cons.IH [of sn]])
    fix x y
    assume "x \<in> set (unmarked rs (duplicated_from sn rs))"
      and "y \<in> set (unmarked rs (duplicated_from sn rs))"
      and lt: "length (takeWhile (\<lambda>z. z \<noteq> x) rs) < length (takeWhile (\<lambda>z. z \<noteq> y) rs)"
    with that have "x \<noteq> r" "y \<noteq> r" by (auto simp: set_kept)
    with lt show "length (takeWhile (\<lambda>z. z \<noteq> x) (r # rs))
                    < length (takeWhile (\<lambda>z. z \<noteq> y) (r # rs))"
      by simp
  qed
  show ?case
  proof (cases "r \<in> set seen")
    case True
    with shift [of seen] show ?thesis by (simp only: kept_Cons if_True)
  next
    case False
    have "\<forall>y \<in> set (unmarked rs (duplicated_from (r # seen) rs)).
            length (takeWhile (\<lambda>z. z \<noteq> r) (r # rs)) < length (takeWhile (\<lambda>z. z \<noteq> y) (r # rs))"
      by (auto simp: set_kept)
    with shift [of "r # seen"] False show ?thesis
      by (simp only: kept_Cons if_False sorted_wrt.simps) simp
  qed
qed

lemma drop_duplicates_append:
  "drop_duplicates (xs @ ys) =
     drop_duplicates xs @ drop_duplicates (filter (\<lambda>r. r \<notin> set xs) ys)"
  using kept_filter [of ys "[]" xs]
  by (simp add: drop_duplicates_def kept_append)

lemma drop_duplicates_distinct: "distinct xs \<Longrightarrow> drop_duplicates xs = xs"
  by (simp add: drop_duplicates_def kept_distinct)

lemma distinct_drop_duplicates: "distinct (drop_duplicates xs)"
  by (simp add: drop_duplicates_def distinct_kept)

lemma set_drop_duplicates: "set (drop_duplicates xs) = set xs"
  by (simp add: drop_duplicates_def set_kept)

lemma length_drop_duplicates: "length (drop_duplicates xs) \<le> length xs"
  by (simp add: drop_duplicates_def unmarked_def)
    (metis (no_types, lifting) length_filter_le length_zip min.cobounded1 order_trans)

lemma drop_duplicates_twice:
  "drop_duplicates (drop_duplicates (xs @ ys) @ ys) = drop_duplicates (xs @ ys)"
proof -
  let ?m = "drop_duplicates (xs @ ys)"
  have "filter (\<lambda>r. r \<notin> set ?m) ys = []"
    by (auto simp: set_drop_duplicates filter_empty_conv)
  moreover have "drop_duplicates [] = []"
    by (simp add: drop_duplicates_def)
  ultimately have "drop_duplicates (?m @ ys) = drop_duplicates ?m"
    by (simp only: drop_duplicates_append [of ?m ys] append_Nil2)
  then show ?thesis
    by (simp add: drop_duplicates_distinct distinct_drop_duplicates)
qed

section \<open>Properties of the merge on upload\<close>

text \<open>
  C4. After a merge (an upload with at least one parsed pair) no two rows of the store
  are equal. The store then holds exactly the old rows and the new pairs, in the order of
  their first occurrence in the old store followed by the new pairs: the old rows come
  first (all of them, in place, when the old store had no duplicates) and the pairs that
  are new come after them, each once.
\<close>

theorem merge_upload_no_duplicates:
  assumes "all_vocab \<noteq> []"
  shows "distinct (vocab_df (fst (merge_upload all_vocab s))) \<and>
         set (vocab_df (fst (merge_upload all_vocab s))) =
           set (vocab_df s) \<union> set (DataFrame all_vocab) \<and>
         sorted_wrt
           (\<lambda>x y. length (takeWhile (\<lambda>z. z \<noteq> x) (vocab_df s @ DataFrame all_vocab))
                    < length (takeWhile (\<lambda>z. z \<noteq> y) (vocab_df s @ DataFrame all_vocab)))
           (vocab_df (fst (merge_upload all_vocab s))) \<and>
         vocab_df (fst (merge_upload all_vocab s)) =
           drop_duplicates (vocab_df s) @
           drop_duplicates (filter (\<lambda>r. r \<notin> set (vocab_df s)) (DataFrame all_vocab)) \<and>
         (distinct (vocab_df s) \<longrightarrow>
            vocab_df (fst (merge_upload all_vocab s)) =
              vocab_df s @
              drop_duplicates (filter (\<lambda>r. r \<notin> set (vocab_df s)) (DataFrame all_vocab)))"
proof -
  have m: "vocab_df (fst (merge_upload all_vocab s)) =
             drop_duplicates (vocab_df s @ DataFrame all_vocab)"
    using assms by (simp add: merge_upload_def pd_concat_def Let_def)
  have srt: "sorted_wrt
          (\<lambda>x y. length (takeWhile (\<lambda>z. z \<noteq> x) (vocab_df s @ DataFrame all_vocab))
                   < length (takeWhile (\<lambda>z. z \<noteq> y) (vocab_df s @ DataFrame all_vocab)))
          (drop_duplicates (vocab_df s @ DataFrame all_vocab))"
    unfolding drop_duplicates_def by (rule sorted_kept)
  have app: "drop_duplicates (vocab_df s @ DataFrame all_vocab) =
               drop_duplicates (vocab_df s) @
               drop_duplicates (filter (\<lambda>r. r \<notin> set (vocab_df s)) (DataFrame all_vocab))"
    by (rule drop_duplicates_append)
  have old: "distinct (vocab_df s) \<longrightarrow>
               drop_duplicates (vocab_df s @ DataFrame all_vocab) =
                 vocab_df s @
                 drop_duplicates (filter (\<lambda>r. r \<notin> set (vocab_df s)) (DataFrame all_vocab))"
    using app by (simp add: drop_duplicates_distinct)
  have dis: "distinct (drop_duplicates (vocab_df s @ DataFrame all_vocab))"
    by (rule distinct_drop_duplicates)
  have st: "set (drop_duplicates (vocab_df s @ DataFrame all_vocab)) =
              set (vocab_df s) \<union> set (DataFrame all_vocab)"
    by (simp add: set_drop_duplicates)
  from dis st srt app old show ?thesis
    unfolding m by blast
qed


theorem merge_upload_no_duplicates_witness:
  "[(ascii ''cat'', ascii ''Katze''), (ascii ''dog'', ascii ''Hund''), (ascii ''cat'', ascii ''Katze'')] \<noteq> [] \<and>
   distinct (vocab_df (fst (merge_upload [(ascii ''cat'', ascii ''Katze''), (ascii ''dog'', ascii ''Hund''), (ascii ''cat'', ascii ''Katze'')]
     \<lparr>vocab_df = [(Str (ascii ''cat''), Str (ascii ''Katze''))], flashcards = [], current_index = 0, show_translation = False\<rparr>))) \<and>
   vocab_df (fst (merge_upload [(ascii ''cat'', ascii ''Katze''), (ascii ''dog'', ascii ''Hund''), (ascii ''cat'', ascii ''Katze'')]
     \<lparr>vocab_df = [(Str (ascii ''cat''), Str (ascii ''Katze''))], flashcards = [], current_index = 0, show_translation = False\<rparr>)) =
     [(Str (ascii ''cat''), Str (ascii ''Katze'')), (Str (ascii ''dog''), Str (ascii ''Hund''))]"
  using merge_upload_no_duplicates [of "[(ascii ''cat'', ascii ''Katze''), (ascii ''dog'', ascii ''Hund''), (ascii ''cat'', ascii ''Katze'')]"
      "\<lparr>vocab_df = [(Str (ascii ''cat''), Str (ascii ''Katze''))], flashcards = [], current_index = 0, show_translation = False\<rparr>"]
  by (simp add: merge_upload_def DataFrame_def pd_concat_def drop_duplicates_def unmarked_def ascii_def)

text \<open>
  C8. Merging the same pairs a second time changes nothing: the store after the second
  merge is the store after the first (and the message is the same).
\<close>

theorem merge_upload_idempotent:
  "merge_upload all_vocab (fst (merge_upload all_vocab s)) = merge_upload all_vocab s"
  by (simp add: merge_upload_def pd_concat_def Let_def drop_duplicates_twice)


theorem merge_upload_idempotent_witness:
  "merge_upload [(ascii ''cat'', ascii ''Katze''), (ascii ''dog'', ascii ''Hund''), (ascii ''cat'', ascii ''Katze'')]
     (fst (merge_upload [(ascii ''cat'', ascii ''Katze''), (ascii ''dog'', ascii ''Hund''), (ascii ''cat'', ascii ''Katze'')]
        \<lparr>vocab_df = [], flashcards = [], current_index = 0, show_translation = False\<rparr>)) =
   (\<lparr>vocab_df = [(Str (ascii ''cat''), Str (ascii ''Katze'')), (Str (ascii ''dog''), Str (ascii ''Hund''))],
     flashcards = [], current_index = 0, show_translation = False\<rparr>, [Recognised 3])"
  using merge_upload_idempotent [of "[(ascii ''cat'', ascii ''Katze''), (ascii ''dog'', ascii ''Hund''), (ascii ''cat'', ascii ''Katze'')]"
      "\<lparr>vocab_df = [], flashcards = [], current_index = 0, show_translation = False\<rparr>"]
  by (simp add: merge_upload_def DataFrame_def pd_concat_def drop_duplicates_def unmarked_def ascii_def)

text \<open>
  C1, as amended. The message of a merge prints the number of pairs parsed from the
  upload, \<^verbatim>\<open>len(new_df)\<close>, duplicates and pairs already stored included; the store
  grows by at most that number.
\<close>

theorem merge_upload_reports_parsed_count:
  assumes "all_vocab \<noteq> []"
  shows "snd (merge_upload all_vocab s) = [Recognised (length all_vocab)] \<and>
         length (vocab_df (fst (merge_upload all_vocab s)))
           \<le> length (vocab_df s) + length all_vocab"
  using assms length_drop_duplicates [of "vocab_df s @ DataFrame all_vocab"]
  by (simp add: merge_upload_def pd_concat_def Let_def DataFrame_def)


theorem merge_upload_reports_parsed_count_witness:
  "[(ascii ''cat'', ascii ''Katze''), (ascii ''dog'', ascii ''Hund'')] \<noteq> [] \<and>
   snd (merge_upload [(ascii ''cat'', ascii ''Katze''), (ascii ''dog'', ascii ''Hund'')]
     \<lparr>vocab_df = [], flashcards = [], current_index = 0, show_translation = False\<rparr>) = [Recognised 2] \<and>
   length (vocab_df (fst (merge_upload [(ascii ''cat'', ascii ''Katze''), (ascii ''dog'', ascii ''Hund'')]
     \<lparr>vocab_df = [], flashcards = [], current_index = 0, show_translation = False\<rparr>))) \<le> 0 + 2"
  using merge_upload_reports_parsed_count [of "[(ascii ''cat'', ascii ''Katze''), (ascii ''dog'', ascii ''Hund'')]"
      "\<lparr>vocab_df = [], flashcards = [], current_index = 0, show_translation = False\<rparr>"]
  by simp

text \<open>
  C1 as stated fails: merging \<open>[A, B, A]\<close> into the empty store adds two rows and
  reports 3, and merging a pair that is already stored adds no row and reports 1.
\<close>

theorem merge_upload_reports_new_count_counterexample:
  "snd (merge_upload [(ascii ''cat'', ascii ''Katze''), (ascii ''dog'', ascii ''Hund''), (ascii ''cat'', ascii ''Katze'')]
     \<lparr>vocab_df = [], flashcards = [], current_index = 0, show_translation = False\<rparr>) = [Recognised 3] \<and>
   vocab_df (fst (merge_upload [(ascii ''cat'', ascii ''Katze''), (ascii ''dog'', ascii ''Hund''), (ascii ''cat'', ascii ''Katze'')]
     \<lparr>vocab_df = [], flashcards = [], current_index = 0, show_translation = False\<rparr>)) =
     [(Str (ascii ''cat''), Str (ascii ''Katze'')), (Str (ascii ''dog''), Str (ascii ''Hund''))] \<and>
   snd (merge_upload [(ascii ''cat'', ascii ''Katze'')]
     \<lparr>vocab_df = [(Str (ascii ''cat''), Str (ascii ''Katze''))], flashcards = [], current_index = 0, show_translation = False\<rparr>) = [Recognised 1] \<and>
   vocab_df (fst (merge_upload [(ascii ''cat'', ascii ''Katze'')]
     \<lparr>vocab_df = [(Str (ascii ''cat''), Str (ascii ''Katze''))], flashcards = [], current_index = 0, show_translation = False\<rparr>)) =
     [(Str (ascii ''cat''), Str (ascii ''Katze''))]"
  by (simp add: merge_upload_def DataFrame_def pd_concat_def drop_duplicates_def unmarked_def ascii_def)

section \<open>Properties of loading and saving\<close>

lemmas csv_eval =
  load_saved_vocabularies_def save_vocabularies_def to_csv_def csv_line_def csv_cell_def
  csv_field_def needs_quotes_def quoted_def read_csv_def tokenize_def tokenizer_step_def
  start_record_step_def start_field_step_def in_field_step_def end_line_def end_field_def
  push_char_def handle_eof_def to_cell_def na_values_def ascii_def empty_frame_def
  skip_bom_def table_width_def too_many_fields_def column_field_def typed_column_def
  may_be_typed_def trim_ascii_def is_ascii_space_def ascii_lower_def drop_sign_def
  is_digit_def

lemma run_script_load_error:
  "read_csv text = Inl e \<Longrightarrow>
     run_script i \<lparr>disk = Some text, session = None\<rparr> =
       (\<lparr>disk = Some text, session = None\<rparr>, [], Some e)"
  by (simp add: run_script_def init_session_state_def load_saved_vocabularies_def)

text \<open>
  C2, as amended. When the file does not exist, \<^verbatim>\<open>load_saved_vocabularies\<close> returns the
  empty store. When it exists, the result is that of \<^verbatim>\<open>read_csv\<close>: an exception of the
  reader (EmptyDataError, ParserError) is not caught, it is raised by
  \<^verbatim>\<open>load_saved_vocabularies\<close> and ends the first run of the script with the session state
  still unset.
\<close>

theorem load_saved_vocabularies_absent_or_read:
  "load_saved_vocabularies None = Inr empty_frame \<and>
   load_saved_vocabularies (Some text) = read_csv text \<and>
   (\<forall>e. read_csv text = Inl (Raised e) \<longrightarrow>
      load_saved_vocabularies (Some text) = Inl (Raised e) \<and>
      run_script i \<lparr>disk = Some text, session = None\<rparr> =
        (\<lparr>disk = Some text, session = None\<rparr>, [], Some (Raised e)))"
  by (simp add: load_saved_vocabularies_def run_script_load_error)

theorem load_saved_vocabularies_absent_or_read_witness:
  "read_csv [] = Inl (Raised EmptyDataError) \<and>
   load_saved_vocabularies (Some []) = Inl (Raised EmptyDataError) \<and>
   run_script \<lparr>uploaded = [], pressed = None, drawn = []\<rparr> \<lparr>disk = Some [], session = None\<rparr> =
     (\<lparr>disk = Some [], session = None\<rparr>, [], Some (Raised EmptyDataError))"
proof -
  have e: "read_csv [] = Inl (Raised EmptyDataError)"
    by (simp add: read_csv_def skip_bom_def tokenize_def handle_eof_def)
  from load_saved_vocabularies_absent_or_read
         [of "[]" "\<lparr>uploaded = [], pressed = None, drawn = []\<rparr>"] e
  show ?thesis by simp
qed

text \<open>
  C2 as stated fails: on a file that exists and is empty the reader raises
  EmptyDataError, and so does \<^verbatim>\<open>load_saved_vocabularies\<close>.
\<close>

theorem load_saved_vocabularies_raises_counterexample:
  "load_saved_vocabularies (Some []) = Inl (Raised EmptyDataError) \<and>
   load_saved_vocabularies (Some []) \<noteq> Inr empty_frame"
  by (simp add: load_saved_vocabularies_def read_csv_def skip_bom_def tokenize_def handle_eof_def)

text \<open>
  C7 fails on the code. The line \<^verbatim>\<open>NA - not available\<close> parses to the pair
  \<open>(NA, not available)\<close>; saved and loaded again, its word is the missing value and
  no longer the string \<^verbatim>\<open>NA\<close>.
\<close>

theorem save_then_load_loses_NA:
  "parse_vocabulary (ascii ''NA - not available'') = [(ascii ''NA'', ascii ''not available'')] \<and>
   load_saved_vocabularies
     (save_vocabularies (DataFrame [(ascii ''NA'', ascii ''not available'')]) file) =
     Inr [(NaN, Str (ascii ''not available''))] \<and>
   DataFrame [(ascii ''NA'', ascii ''not available'')] \<noteq> [(NaN, Str (ascii ''not available''))]"
proof (intro conjI)
  show "parse_vocabulary (ascii ''NA - not available'') = [(ascii ''NA'', ascii ''not available'')]"
    by (simp add: parse_vocabulary_def splitlines_def is_linebreak_def parse_line_def contains_def
        split1_def ascii_def strip_def is_space_def SUPPORTED_SEPARATORS_def)
  show "load_saved_vocabularies
     (save_vocabularies (DataFrame [(ascii ''NA'', ascii ''not available'')]) file) =
     Inr [(NaN, Str (ascii ''not available''))]"
    by (simp add: csv_eval DataFrame_def)
  show "DataFrame [(ascii ''NA'', ascii ''not available'')] \<noteq> [(NaN, Str (ascii ''not available''))]"
    by (simp add: DataFrame_def)
qed

lemma overview_section_file:
  "btn \<noteq> Some SaveButton \<Longrightarrow> fst (fst (overview_section btn (file, s))) = file"
  by (simp add: overview_section_def Let_def)

lemma run_script_file:
  "pressed i \<noteq> Some SaveButton \<Longrightarrow> disk (fst (run_script i w)) = disk w"
proof -
  assume a: "pressed i \<noteq> Some SaveButton"
  show ?thesis
  proof (cases "init_session_state w")
    case (Inl e)
    then show ?thesis by (simp add: run_script_def)
  next
    case (Inr s0)
    obtain s1 n1 where u: "upload_section (uploaded i) s0 = (s1, n1)" by fastforce
    obtain file2 s2 n2 where
      ov: "overview_section (pressed i) (disk w, s1) = ((file2, s2), n2)"
      by (metis surj_pair)
    obtain s3 n3 where st: "start_section (pressed i) (drawn i) s2 = (s3, n3)" by fastforce
    from overview_section_file [OF a, of "disk w" s1] ov have "file2 = disk w" by simp
    with Inr u ov st show ?thesis
      by (simp add: run_script_def split: sum.splits)
  qed
qed

text \<open>
  C9. After the clear button the store in memory is empty (and so is the deck), and the
  file is the one before. More generally, a run of the script in which the save button
  was not pressed leaves the file as it was.
\<close>

theorem clear_keeps_file:
  "vocab_df (snd (fst (overview_section (Some ClearButton) (file, s)))) = empty_frame \<and>
   flashcards (clear_vocabularies s) = [] \<and>
   fst (fst (overview_section (Some ClearButton) (file, s))) = file \<and>
   (pressed i \<noteq> Some SaveButton \<longrightarrow> disk (fst (run_script i w)) = disk w)"
  by (simp add: overview_section_def Let_def clear_vocabularies_def df_empty_def empty_frame_def
      run_script_file)


theorem clear_keeps_file_witness:
  "ClearButton \<noteq> SaveButton \<and>
   overview_section (Some ClearButton)
     (Some (ascii ''word,translation''),
      \<lparr>vocab_df = [(Str (ascii ''cat''), Str (ascii ''Katze''))], flashcards = [],
       current_index = 0, show_translation = False\<rparr>) =
     ((Some (ascii ''word,translation''),
       \<lparr>vocab_df = [], flashcards = [], current_index = 0, show_translation = False\<rparr>),
      [Cleared]) \<and>
   disk (fst (run_script \<lparr>uploaded = [], pressed = Some ClearButton, drawn = []\<rparr>
     \<lparr>disk = Some (ascii ''word,translation''),
      session = Some \<lparr>vocab_df = [(Str (ascii ''cat''), Str (ascii ''Katze''))],
        flashcards = [], current_index = 0, show_translation = False\<rparr>\<rparr>)) =
     Some (ascii ''word,translation'')"
  using clear_keeps_file [of "Some (ascii ''word,translation'')"
      "\<lparr>vocab_df = [(Str (ascii ''cat''), Str (ascii ''Katze''))], flashcards = [],
        current_index = 0, show_translation = False\<rparr>"
      "\<lparr>uploaded = [], pressed = Some ClearButton, drawn = []\<rparr>"
      "\<lparr>disk = Some (ascii ''word,translation''),
        session = Some \<lparr>vocab_df = [(Str (ascii ''cat''), Str (ascii ''Katze''))],
          flashcards = [], current_index = 0, show_translation = False\<rparr>\<rparr>"]
  by (simp add: overview_section_def clear_vocabularies_def df_empty_def empty_frame_def)

section \<open>Properties of the flashcards\<close>

lemma flashcards_next_card [simp]: "flashcards (next_card s) = flashcards s"
  by (simp add: next_card_def)

lemma flashcards_next_card_pow [simp]: "flashcards ((next_card ^^ k) s) = flashcards s"
  by (induction k) simp_all

lemma vocab_df_next_card_pow [simp]: "vocab_df ((next_card ^^ k) s) = vocab_df s"
  by (induction k) (simp_all add: next_card_def)

lemma current_index_next_card_pow:
  "current_index ((next_card ^^ Suc k) s) =
     (current_index s + int (Suc k)) mod int (length (flashcards s))"
proof (induction k)
  case 0
  then show ?case by (simp add: next_card_def)
next
  case (Suc k)
  have "current_index ((next_card ^^ Suc (Suc k)) s) =
          (current_index ((next_card ^^ Suc k) s) + 1) mod int (length (flashcards s))"
    by (simp add: next_card_def)
  also have "\<dots> = ((current_index s + int (Suc k)) mod int (length (flashcards s)) + 1)
                      mod int (length (flashcards s))"
    by (simp only: Suc.IH)
  also have "\<dots> = (current_index s + int (Suc k) + 1) mod int (length (flashcards s))"
    by (rule mod_add_left_eq)
  also have "current_index s + int (Suc k) + 1 = current_index s + int (Suc (Suc k))"
    by simp
  finally show ?case .
qed

lemma py_index_in_range:
  "0 \<le> i \<Longrightarrow> i < int (length xs) \<Longrightarrow> py_index xs i = Inr (xs ! nat i)"
  by (simp add: py_index_def Let_def)

text \<open>
  C5. With a deck of \<open>N\<close> cards, the button for the next card sets the position to
  \<open>(position + 1) mod N\<close> and hides the translation, whatever it was before. When the
  position is one of the deck (\<open>0 \<le> position < N\<close>), the flashcard section does
  exactly that, and \<open>N\<close> presses bring the position back to where it was.
\<close>

theorem next_card_wraps:
  assumes "flashcards s \<noteq> []"
  shows "current_index (next_card s) =
           (current_index s + 1) mod int (length (flashcards s)) \<and>
         \<not> show_translation (next_card s) \<and>
         (0 \<le> current_index s \<and> current_index s < int (length (flashcards s)) \<longrightarrow>
            flashcard_section (Some NextButton) s = Inr (next_card s) \<and>
            current_index ((next_card ^^ length (flashcards s)) s) = current_index s)"
proof -
  from assms obtain k where k: "length (flashcards s) = Suc k"
    by (cases "flashcards s") auto
  have cyc: "current_index ((next_card ^^ length (flashcards s)) s) = current_index s"
    if "0 \<le> current_index s" "current_index s < int (length (flashcards s))"
  proof -
    have "current_index ((next_card ^^ Suc k) s) =
            (current_index s + int (Suc k)) mod int (Suc k)"
      using current_index_next_card_pow [of k s] k by simp
    also have "\<dots> = current_index s mod int (Suc k)"
      by (simp only: mod_add_self2)
    also have "\<dots> = current_index s"
      using that k by simp
    finally show ?thesis using k by simp
  qed
  have sec: "flashcard_section (Some NextButton) s = Inr (next_card s)"
    if "0 \<le> current_index s" "current_index s < int (length (flashcards s))"
    using assms py_index_in_range [OF that] by (simp add: flashcard_section_def Let_def)
  from cyc sec show ?thesis
    by (simp add: next_card_def)
qed

theorem next_card_wraps_witness:
  "[(Str [97], Str [98]), (Str [99], Str [100]), (Str [101], Str [102])] \<noteq> [] \<and>
   current_index (next_card \<lparr>vocab_df = [],
     flashcards = [(Str [97], Str [98]), (Str [99], Str [100]), (Str [101], Str [102])],
     current_index = 2, show_translation = True\<rparr>) = 0 \<and>
   \<not> show_translation (next_card \<lparr>vocab_df = [],
     flashcards = [(Str [97], Str [98]), (Str [99], Str [100]), (Str [101], Str [102])],
     current_index = 2, show_translation = True\<rparr>) \<and>
   current_index ((next_card ^^ 3) \<lparr>vocab_df = [],
     flashcards = [(Str [97], Str [98]), (Str [99], Str [100]), (Str [101], Str [102])],
     current_index = 2, show_translation = True\<rparr>) = 2"
  using next_card_wraps [of "\<lparr>vocab_df = [],
     flashcards = [(Str [97], Str [98]), (Str [99], Str [100]), (Str [101], Str [102])],
     current_index = 2, show_translation = True\<rparr>"]
  by (simp add: next_card_def eval_nat_numeral)

text \<open>
  C10. The button for the next card changes the position and the visibility of the
  translation and nothing else: the deck and the store stay the same, also after any
  number of presses.
\<close>

theorem next_card_frame:
  "next_card s = s\<lparr>current_index := current_index (next_card s),
                    show_translation := show_translation (next_card s)\<rparr> \<and>
   flashcards (next_card s) = flashcards s \<and>
   vocab_df (next_card s) = vocab_df s \<and>
   flashcards ((next_card ^^ k) s) = flashcards s \<and>
   (\<forall>s'. flashcard_section (Some NextButton) s = Inr s' \<longrightarrow>
      flashcards s' = flashcards s \<and> vocab_df s' = vocab_df s)"
  by (auto simp: next_card_def flashcard_section_def Let_def split: if_splits sum.splits)

theorem next_card_frame_witness:
  "flashcard_section (Some NextButton) \<lparr>vocab_df = [(Str [97], Str [98])],
     flashcards = [(Str [97], Str [98]), (Str [99], Str [100])],
     current_index = 1, show_translation = True\<rparr> =
   Inr \<lparr>vocab_df = [(Str [97], Str [98])],
     flashcards = [(Str [97], Str [98]), (Str [99], Str [100])],
     current_index = 0, show_translation = False\<rparr>"
  using next_card_frame [of "\<lparr>vocab_df = [(Str [97], Str [98])],
     flashcards = [(Str [97], Str [98]), (Str [99], Str [100])],
     current_index = 1, show_translation = True\<rparr>" 1]
  by (simp add: flashcard_section_def py_index_def next_card_def Let_def)

lemma mset_sample:
  "mset order = mset [0..<length df] \<Longrightarrow> mset (sample order df) = mset df"
proof -
  assume a: "mset order = mset [0..<length df]"
  have "mset (sample order df) = image_mset ((!) df) (mset order)"
    by (simp add: sample_def)
  also have "\<dots> = image_mset ((!) df) (mset [0..<length df])"
    by (simp only: a)
  also have "\<dots> = mset (map ((!) df) [0..<length df])"
    by simp
  also have "\<dots> = mset df"
    by (simp only: map_nth)
  finally show ?thesis .
qed

text \<open>
  C6. The start button on an empty store leaves the session state as it is and shows the
  warning. On a store that is not empty, with the order that the random number
  generator drew (a permutation of the positions of the store), the deck is a
  permutation of the rows of the store, the position is 0, the translation is hidden
  and the store is unchanged.
\<close>

theorem start_learning_cases:
  "(df_empty (vocab_df s) \<longrightarrow>
      start_section (Some StartButton) order s = (s, [LoadVocabularyFirst])) \<and>
   (\<not> df_empty (vocab_df s) \<and> mset order = mset [0..<length (vocab_df s)] \<longrightarrow>
      mset (flashcards (fst (start_section (Some StartButton) order s))) = mset (vocab_df s) \<and>
      current_index (fst (start_section (Some StartButton) order s)) = 0 \<and>
      \<not> show_translation (fst (start_section (Some StartButton) order s)) \<and>
      vocab_df (fst (start_section (Some StartButton) order s)) = vocab_df s \<and>
      snd (start_section (Some StartButton) order s) = [])"
  by (simp add: start_section_def start_learning_def to_dict_records_def mset_sample)

theorem start_learning_cases_witness:
  "\<not> df_empty [(Str [97], Str [98]), (Str [99], Str [100])] \<and>
   mset [1, 0] = mset [0..<length [(Str [97], Str [98]), (Str [99], Str [100])]] \<and>
   start_section (Some StartButton) [1, 0]
     \<lparr>vocab_df = [(Str [97], Str [98]), (Str [99], Str [100])], flashcards = [],
      current_index = 5, show_translation = True\<rparr> =
     (\<lparr>vocab_df = [(Str [97], Str [98]), (Str [99], Str [100])],
       flashcards = [(Str [99], Str [100]), (Str [97], Str [98])],
       current_index = 0, show_translation = False\<rparr>, []) \<and>
   start_section (Some StartButton) [1, 0]
     \<lparr>vocab_df = [], flashcards = [], current_index = 0, show_translation = False\<rparr> =
     (\<lparr>vocab_df = [], flashcards = [], current_index = 0, show_translation = False\<rparr>,
      [LoadVocabularyFirst])"
  using start_learning_cases [of "\<lparr>vocab_df = [(Str [97], Str [98]), (Str [99], Str [100])],
      flashcards = [], current_index = 5, show_translation = True\<rparr>" "[1, 0]"]
  by (simp add: start_section_def start_learning_def to_dict_records_def sample_def df_empty_def
      upt_rec)

section \<open>The position stays inside the deck\<close>

lemma upload_section_deck:
  "flashcards (fst (upload_section texts s)) = flashcards s \<and>
   current_index (fst (upload_section texts s)) = current_index s"
  by (simp add: upload_section_def merge_upload_def Let_def)

lemma upload_section_ok:
  "deck_position_ok s \<Longrightarrow> deck_position_ok (fst (upload_section texts s))"
  by (simp add: deck_position_ok_def upload_section_deck)

lemma overview_section_ok:
  "deck_position_ok s \<Longrightarrow> deck_position_ok (snd (fst (overview_section btn (file, s))))"
  by (simp add: deck_position_ok_def overview_section_def clear_vocabularies_def Let_def)

lemma start_section_ok:
  "deck_position_ok s \<Longrightarrow> deck_position_ok (fst (start_section btn order s))"
  by (simp add: deck_position_ok_def start_section_def start_learning_def to_dict_records_def
      sample_def)

lemma next_card_ok:
  "flashcards s \<noteq> [] \<Longrightarrow> deck_position_ok (next_card s)"
  by (simp add: deck_position_ok_def next_card_def)

lemma flashcard_section_ok:
  assumes "deck_position_ok s"
  shows "\<exists>s'. flashcard_section btn s = Inr s' \<and> deck_position_ok s'"
proof (cases "flashcards s = []")
  case True
  with assms show ?thesis by (simp add: flashcard_section_def)
next
  case False
  with assms have r: "0 \<le> current_index s" "current_index s < int (length (flashcards s))"
    by (simp_all add: deck_position_ok_def)
  have t: "deck_position_ok (toggle_translation s)"
    using assms by (simp add: deck_position_ok_def toggle_translation_def)
  from False py_index_in_range [OF r] t assms next_card_ok [OF False] show ?thesis
    by (simp add: flashcard_section_def Let_def)
qed

lemma first_run_ok:
  "session w = None \<Longrightarrow> init_session_state w = Inr s \<Longrightarrow> deck_position_ok s"
  by (auto simp: init_session_state_def deck_position_ok_def split: sum.splits)

text \<open>
  Every run of the script keeps the invariant of the session: when the position is one
  of the deck before the run, it is one after it, and the run raises no IndexError. The
  first run of a session starts with an empty deck.
\<close>

theorem run_script_keeps_position:
  assumes "session w = Some s" and "deck_position_ok s"
  shows "\<exists>s'. session (fst (run_script i w)) = Some s' \<and> deck_position_ok s' \<and>
           snd (snd (run_script i w)) = None"
proof -
  obtain s1 n1 where u: "upload_section (uploaded i) s = (s1, n1)" by fastforce
  obtain file2 s2 n2 where
    ov: "overview_section (pressed i) (disk w, s1) = ((file2, s2), n2)"
    by (metis surj_pair)
  obtain s3 n3 where st: "start_section (pressed i) (drawn i) s2 = (s3, n3)" by fastforce
  from upload_section_ok [OF assms(2), of "uploaded i"] u have "deck_position_ok s1" by simp
  from overview_section_ok [OF this, of "pressed i" "disk w"] ov have "deck_position_ok s2"
    by simp
  from start_section_ok [OF this, of "pressed i" "drawn i"] st have "deck_position_ok s3"
    by simp
  from flashcard_section_ok [OF this, of "pressed i"] obtain s4 where
    f: "flashcard_section (pressed i) s3 = Inr s4" and ok: "deck_position_ok s4" by blast
  from assms(1) u ov st f ok show ?thesis
    by (simp add: run_script_def init_session_state_def)
qed

theorem run_script_keeps_position_witness:
  "deck_position_ok \<lparr>vocab_df = [(Str [97], Str [98])],
     flashcards = [(Str [97], Str [98]), (Str [99], Str [100])],
     current_index = 1, show_translation = True\<rparr> \<and>
   run_script \<lparr>uploaded = [], pressed = Some NextButton, drawn = []\<rparr>
     \<lparr>disk = None, session = Some \<lparr>vocab_df = [(Str [97], Str [98])],
       flashcards = [(Str [97], Str [98]), (Str [99], Str [100])],
       current_index = 1, show_translation = True\<rparr>\<rparr> =
     (\<lparr>disk = None, session = Some \<lparr>vocab_df = [(Str [97], Str [98])],
       flashcards = [(Str [97], Str [98]), (Str [99], Str [100])],
       current_index = 0, show_translation = False\<rparr>\<rparr>, [], None)"
  using run_script_keeps_position [of
      "\<lparr>disk = None, session = Some \<lparr>vocab_df = [(Str [97], Str [98])],
         flashcards = [(Str [97], Str [98]), (Str [99], Str [100])],
         current_index = 1, show_translation = True\<rparr>\<rparr>"
      "\<lparr>vocab_df = [(Str [97], Str [98])],
         flashcards = [(Str [97], Str [98]), (Str [99], Str [100])],
         current_index = 1, show_translation = True\<rparr>"
      "\<lparr>uploaded = [], pressed = Some NextButton, drawn = []\<rparr>"]
  by (simp add: deck_position_ok_def run_script_def init_session_state_def upload_section_def
      overview_section_def start_section_def flashcard_section_def py_index_def next_card_def
      df_empty_def Let_def)


end
